theory Spec2Isabelle
  imports Main
begin

section \<open>JavaScript values and outcomes\<close>

text \<open>
  The health code handles values of type \<open>any\<close>: whatever a promise was rejected
  with (\<open>result.reason\<close>), whatever a \<open>catch (err: any)\<close> clause caught, and the
  \<open>error\<close> member of the database client's response. They are modelled by a datatype of
  JavaScript values. Numbers are restricted to the integral ones (no NaN, no fractions);
  an \<open>Error\<close> instance is an object with a \<open>message\<close> property.
\<close>

datatype jsval =
    JUndefined
  | JNull
  | JBool bool
  | JNum int
  | JStr string
  | JObj "(string \<times> jsval) list"

text \<open>Truthiness, as tested by \<open>if (error)\<close>.\<close>

fun truthy :: "jsval \<Rightarrow> bool" where
  "truthy JUndefined = False"
| "truthy JNull = False"
| "truthy (JBool b) = b"
| "truthy (JNum n) = (n \<noteq> 0)"
| "truthy (JStr s) = (s \<noteq> [])"
| "truthy (JObj ps) = True"

text \<open>
  \<open>x?.message\<close>: \<open>undefined\<close> when \<open>x\<close> is \<open>null\<close> or \<open>undefined\<close>, and otherwise
  the property \<open>message\<close> of \<open>x\<close>, which only an object can have.
\<close>

fun opt_message :: "jsval \<Rightarrow> jsval" where
  "opt_message (JObj ps) = (case map_of ps ''message'' of None \<Rightarrow> JUndefined | Some v \<Rightarrow> v)"
| "opt_message v = JUndefined"

text \<open>\<open>a ?? b\<close>: \<open>b\<close> when \<open>a\<close> is \<open>null\<close> or \<open>undefined\<close>, otherwise \<open>a\<close>.\<close>

fun nullish_or :: "jsval \<Rightarrow> jsval \<Rightarrow> jsval" where
  "nullish_or JUndefined b = b"
| "nullish_or JNull b = b"
| "nullish_or a b = a"

text \<open>\<open>new Error(msg)\<close>.\<close>

definition new_Error :: "string \<Rightarrow> jsval" where
  "new_Error msg = JObj [(''message'', JStr msg)]"

definition is_string :: "jsval \<Rightarrow> bool" where
  "is_string v = (case v of JStr s \<Rightarrow> True | _ \<Rightarrow> False)"

text \<open>
  What running a piece of asynchronous code comes to: it returns a value, it throws, or
  it never completes. For a promise these are: fulfilled, rejected, pending for ever.
\<close>

datatype 'a completion = Returns 'a | Throws jsval | Hangs

text \<open>\<open>PromiseSettledResult\<close>, the entries of what \<open>Promise.allSettled\<close> yields.\<close>

datatype 'a settled = Fulfilled 'a | Rejected jsval

text \<open>\<open>Array.prototype.join\<close> on an array of strings.\<close>

fun join_str :: "string \<Rightarrow> string list \<Rightarrow> string" where
  "join_str sep [] = []"
| "join_str sep [x] = x"
| "join_str sep (x # y # ys) = x @ sep @ join_str sep (y # ys)"

section \<open>Check results and reports\<close>

datatype status = OK | DEGRADED

text \<open>
  The object a check returns. The field \<open>error\<close> is \<open>None\<close> when the object has no
  such property; when it has one its value is whatever the code stored there.
\<close>

record CheckResult =
  name :: string
  status :: status
  error :: "jsval option"

record ReadinessReport =
  ready :: bool
  checks :: "CheckResult list"

record HealthResponseDto =
  h_status :: status
  version :: "string option"
  uptime :: int

text \<open>\<open>process.env\<close>: every variable is a string or is not set.\<close>

type_synonym env = "string \<Rightarrow> string option"

text \<open>\<open>!v\<close> for \<open>v\<close> a string or \<open>undefined\<close>.\<close>

definition js_not :: "string option \<Rightarrow> bool" where
  "js_not v = (case v of None \<Rightarrow> True | Some s \<Rightarrow> s = [])"

section \<open>env.checks.ts\<close>

definition requiredVars :: "string list" where
  "requiredVars = [''SUPABASE_URL'', ''SUPABASE_SERVICE_ROLE_KEY'']"

text \<open>The predicate of the \<open>filter\<close>: \<open>!process.env[key] || process.env[key]?.length === 0\<close>.\<close>

definition is_missing :: "env \<Rightarrow> string \<Rightarrow> bool" where
  "is_missing e key =
     (js_not (e key) \<or> (case e key of None \<Rightarrow> False | Some s \<Rightarrow> length s = 0))"

text \<open>The body of the \<open>try\<close> block of \<open>checkEnv\<close>; none of its operations throws.\<close>

definition checkEnv_try :: "env \<Rightarrow> CheckResult completion" where
  "checkEnv_try e =
     (let missing = filter (is_missing e) requiredVars
      in if length missing > 0
         then Returns \<lparr>name = ''env'', status = DEGRADED,
                error = Some (JStr (''Missing env vars: '' @ join_str '', '' missing))\<rparr>
         else Returns \<lparr>name = ''env'', status = OK, error = None\<rparr>)"

definition checkEnv :: "env \<Rightarrow> CheckResult completion" where
  "checkEnv e =
     (case checkEnv_try e of
        Throws err \<Rightarrow>
          Returns \<lparr>name = ''env'', status = DEGRADED,
            error = Some (nullish_or (opt_message err) (JStr ''env check failed''))\<rparr>
      | r \<Rightarrow> r)"

section \<open>supabase.check.ts\<close>

text \<open>
  The database client is a library outside this code. It is a parameter: given the URL and
  the key, the query \<open>from(...).select(...).limit(1)\<close> on a new client yields a response
  whose \<open>error\<close> member is the value returned, or the client throws (or its promise is
  rejected), or it never answers. The second component of the result of \<open>checkSupabase\<close>
  lists the requests handed to the client.
\<close>

type_synonym client = "string \<Rightarrow> string \<Rightarrow> jsval completion"

definition checkSupabase_try :: "env \<Rightarrow> client \<Rightarrow> CheckResult completion \<times> (string \<times> string) list" where
  "checkSupabase_try e ping =
     (if js_not (e ''SUPABASE_URL'') \<or> js_not (e ''SUPABASE_SERVICE_ROLE_KEY'')
      then (Returns \<lparr>name = ''supabase'', status = DEGRADED,
              error = Some (JStr ''Supabase env not configured'')\<rparr>, [])
      else
        (case (e ''SUPABASE_URL'', e ''SUPABASE_SERVICE_ROLE_KEY'') of
           (Some url, Some key) \<Rightarrow>
             (case ping url key of
                Returns err \<Rightarrow>
                  if truthy err then (Throws err, [(url, key)])
                  else (Returns \<lparr>name = ''supabase'', status = OK, error = None\<rparr>, [(url, key)])
              | Throws thrown \<Rightarrow> (Throws thrown, [(url, key)])
              | Hangs \<Rightarrow> (Hangs, [(url, key)]))
         | _ \<Rightarrow> (Returns \<lparr>name = ''supabase'', status = DEGRADED,
              error = Some (JStr ''Supabase env not configured'')\<rparr>, [])))"

definition checkSupabase :: "env \<Rightarrow> client \<Rightarrow> CheckResult completion \<times> (string \<times> string) list" where
  "checkSupabase e ping =
     (case checkSupabase_try e ping of
        (Throws err, reqs) \<Rightarrow>
          (Returns \<lparr>name = ''supabase'', status = DEGRADED,
             error = Some (nullish_or (opt_message err) (JStr ''Supabase unreachable''))\<rparr>, reqs)
      | r \<Rightarrow> r)"

section \<open>health.service.ts\<close>

definition TIMEOUT_MS :: nat where
  "TIMEOUT_MS = 1500"

subsection \<open>liveness\<close>

text \<open>
  \<open>startedAt\<close> is the field of the service, \<open>now\<close> is what \<open>Date.now()\<close> returns at the
  call, both in milliseconds. \<open>Math.floor\<close> of the quotient is \<open>div\<close> on \<open>int\<close>, which
  rounds down.
\<close>

definition liveness :: "int \<Rightarrow> int \<Rightarrow> env \<Rightarrow> HealthResponseDto" where
  "liveness startedAt now e =
     \<lparr>h_status = OK, version = e ''APP_VERSION'', uptime = (now - startedAt) div 1000\<rparr>"

subsection \<open>withTimeout\<close>

text \<open>
  The promise made by \<open>withTimeout(promise, ms)\<close>: \<open>inner\<close> is what the given promise
  comes to, \<open>timer\<close> holds the delay while the timeout is armed, and \<open>outer\<close> is the state
  of the new promise (\<open>None\<close> while pending).
\<close>

record 'a wrapper =
  inner :: "'a completion"
  timer :: "nat option"
  outer :: "'a settled option"

definition withTimeout :: "'a completion \<Rightarrow> nat \<Rightarrow> 'a wrapper" where
  "withTimeout promise ms = \<lparr>inner = promise, timer = Some ms, outer = None\<rparr>"

text \<open>\<open>resolve\<close> and \<open>reject\<close> settle a pending promise and do nothing to a settled one.\<close>

definition settle :: "'a settled \<Rightarrow> 'a wrapper \<Rightarrow> 'a wrapper" where
  "settle s w = (if outer w = None then w\<lparr>outer := Some s\<rparr> else w)"

definition clearTimeout :: "'a wrapper \<Rightarrow> 'a wrapper" where
  "clearTimeout w = w\<lparr>timer := None\<rparr>"

text \<open>The callback of \<open>setTimeout\<close>; a cleared timer does not fire.\<close>

definition on_timer :: "'a wrapper \<Rightarrow> 'a wrapper" where
  "on_timer w =
     (case timer w of
        None \<Rightarrow> w
      | Some ms \<Rightarrow> settle (Rejected (new_Error ''timeout'')) (w\<lparr>timer := None\<rparr>))"

text \<open>The callbacks of \<open>then\<close> and \<open>catch\<close>; neither runs while the given promise is pending.\<close>

definition on_inner :: "'a wrapper \<Rightarrow> 'a wrapper" where
  "on_inner w =
     (case inner w of
        Returns r \<Rightarrow> settle (Fulfilled r) (clearTimeout w)
      | Throws e \<Rightarrow> settle (Rejected e) (clearTimeout w)
      | Hangs \<Rightarrow> w)"

subsection \<open>The event loop\<close>

text \<open>
  The order in which timers fire and promises settle is an input: a list of events, each
  naming the position of the wrapper it belongs to. Every order is admitted, also those
  the runtime excludes (the timer of a promise that was settled when it was wrapped), so
  what holds for all schedules holds for the real ones.
\<close>

datatype event = TimerFires nat | InnerSettles nat

fun slot :: "event \<Rightarrow> nat" where
  "slot (TimerFires i) = i"
| "slot (InnerSettles i) = i"

fun react :: "event \<Rightarrow> 'a wrapper \<Rightarrow> 'a wrapper" where
  "react (TimerFires i) w = on_timer w"
| "react (InnerSettles i) w = on_inner w"

definition dispatch :: "event \<Rightarrow> 'a wrapper list \<Rightarrow> 'a wrapper list" where
  "dispatch ev ws = (if slot ev < length ws then ws[slot ev := react ev (ws ! slot ev)] else ws)"

text \<open>
  \<open>Promise.allSettled\<close>: settled once every promise is, with the outcomes in the order of
  the promises given; never rejected.
\<close>

definition allSettled :: "'a wrapper list \<Rightarrow> 'a settled list option" where
  "allSettled ws = those (map outer ws)"

subsection \<open>mapResult and readiness\<close>

definition mapResult :: "CheckResult settled \<Rightarrow> CheckResult" where
  "mapResult result =
     (case result of
        Fulfilled v \<Rightarrow> v
      | Rejected reason \<Rightarrow>
          \<lparr>name = ''unknown'', status = DEGRADED,
           error = Some (nullish_or (opt_message reason) (JStr ''failed''))\<rparr>)"

text \<open>
  \<open>Promise.allSettled\<close> over the wrapped checks followed by \<open>map(mapResult)\<close>, for any
  list of checks; \<open>None\<close> while some wrapper is still pending.
\<close>

definition runChecks :: "CheckResult completion list \<Rightarrow> nat \<Rightarrow> event list \<Rightarrow> CheckResult list option" where
  "runChecks ps ms sched =
     map_option (map mapResult)
       (allSettled (fold dispatch sched (map (\<lambda>p. withTimeout p ms) ps)))"

text \<open>What \<open>readiness\<close> does with the mapped results.\<close>

definition report :: "CheckResult list \<Rightarrow> ReadinessReport" where
  "report mapped = (let ready = list_all (\<lambda>c. status c = OK) mapped in \<lparr>ready = ready, checks = mapped\<rparr>)"

definition readiness :: "env \<Rightarrow> client \<Rightarrow> event list \<Rightarrow> ReadinessReport completion" where
  "readiness e ping sched =
     (case runChecks [checkEnv e, fst (checkSupabase e ping)] TIMEOUT_MS sched of
        None \<Rightarrow> Hangs
      | Some mapped \<Rightarrow> Returns (report mapped))"

section \<open>Notions used in the statements\<close>

text \<open>
  One wrapper on its own: the state of the promise of \<open>withTimeout(p, ms)\<close> after the
  events \<open>evs\<close>, all of them its own.
\<close>

definition race :: "'a completion \<Rightarrow> nat \<Rightarrow> event list \<Rightarrow> 'a settled option" where
  "race p ms evs = outer (fold react evs (withTimeout p ms))"

text \<open>Whether a value is a string, and whether an \<open>error\<close> field is a string or absent.\<close>

definition string_or_absent :: "jsval option \<Rightarrow> bool" where
  "string_or_absent x = (case x of None \<Rightarrow> True | Some v \<Rightarrow> is_string v)"

text \<open>A failure value whose \<open>message\<close> is a string, or which has none.\<close>

definition plain_message :: "jsval \<Rightarrow> bool" where
  "plain_message err =
     (is_string (opt_message err) \<or> opt_message err = JUndefined \<or> opt_message err = JNull)"

text \<open>What can settle a wrapper around \<open>p\<close>: its timer, or \<open>p\<close> itself.\<close>

definition settled_by :: "'a completion \<Rightarrow> 'a settled \<Rightarrow> bool" where
  "settled_by p s =
     (s = Rejected (new_Error ''timeout'') \<or>
      (case p of Returns v \<Rightarrow> s = Fulfilled v | Throws r \<Rightarrow> s = Rejected r | Hangs \<Rightarrow> False))"

text \<open>The result that stands for a check whose timer fired first.\<close>

definition timed_out :: CheckResult where
  "timed_out = \<lparr>name = ''unknown'', status = DEGRADED, error = Some (JStr ''timeout'')\<rparr>"

definition not_configured :: CheckResult where
  "not_configured =
     \<lparr>name = ''supabase'', status = DEGRADED, error = Some (JStr ''Supabase env not configured'')\<rparr>"

section \<open>Example inputs\<close>

definition env_full :: env where
  "env_full = [''SUPABASE_URL'' \<mapsto> ''https://db.example'', ''SUPABASE_SERVICE_ROLE_KEY'' \<mapsto> ''secret'']"

definition ping_ok :: client where
  "ping_ok url key = Returns JNull"

definition ping_refused :: client where
  "ping_refused url key = Returns (JObj [(''message'', JStr ''connection refused'')])"

definition ping_numeric :: client where
  "ping_numeric url key = Throws (JObj [(''message'', JNum 503)])"

definition ping_nested :: client where
  "ping_nested url key =
     Returns (JObj [(''message'', JObj [(''message'', JStr ''upstream unavailable'')])])"

definition ping_hangs :: client where
  "ping_hangs url key = Hangs"

definition env_no_url :: env where
  "env_no_url = [''SUPABASE_SERVICE_ROLE_KEY'' \<mapsto> ''secret'']"

section \<open>Auxiliary facts\<close>

subsection \<open>JavaScript operators\<close>

lemma nullish_or_if: "nullish_or a b = (if a = JUndefined \<or> a = JNull then b else a)"
  by (cases a) simp_all

lemma js_not_iff: "js_not v \<longleftrightarrow> v = None \<or> v = Some []"
  by (auto simp: js_not_def split: option.splits)

lemma is_missing_iff: "is_missing e k \<longleftrightarrow> e k = None \<or> e k = Some []"
  by (auto simp: is_missing_def js_not_def split: option.splits)

lemma plain_message_string:
  "plain_message err \<Longrightarrow>
   is_string (if opt_message err = JUndefined \<or> opt_message err = JNull then JStr fallback else opt_message err)"
  by (auto simp: plain_message_def is_string_def)

subsection \<open>The checks\<close>

lemma checkEnv_try_Returns: "\<exists>r. checkEnv_try e = Returns r"
  by (simp add: checkEnv_try_def Let_def)

lemma checkEnv_eq_try: "checkEnv e = checkEnv_try e"
  using checkEnv_try_Returns [of e] by (auto simp: checkEnv_def)

lemma checkEnv_string: "\<exists>r. checkEnv e = Returns r \<and> string_or_absent (error r) \<and> name r = ''env''"
  by (simp add: checkEnv_eq_try checkEnv_try_def Let_def string_or_absent_def is_string_def)

lemma checkSupabase_try_unset:
  "e ''SUPABASE_URL'' = None \<or> e ''SUPABASE_URL'' = Some [] \<or>
   e ''SUPABASE_SERVICE_ROLE_KEY'' = None \<or> e ''SUPABASE_SERVICE_ROLE_KEY'' = Some [] \<Longrightarrow>
   checkSupabase_try e ping = (Returns not_configured, [])"
  by (auto simp: checkSupabase_try_def js_not_iff not_configured_def split: option.splits)

lemma checkSupabase_try_set:
  "e ''SUPABASE_URL'' = Some url \<Longrightarrow> url \<noteq> [] \<Longrightarrow>
   e ''SUPABASE_SERVICE_ROLE_KEY'' = Some key \<Longrightarrow> key \<noteq> [] \<Longrightarrow>
   checkSupabase_try e ping =
     (case ping url key of
        Returns err \<Rightarrow>
          if truthy err then (Throws err, [(url, key)])
          else (Returns \<lparr>name = ''supabase'', status = OK, error = None\<rparr>, [(url, key)])
      | Throws thrown \<Rightarrow> (Throws thrown, [(url, key)])
      | Hangs \<Rightarrow> (Hangs, [(url, key)]))"
  by (simp add: checkSupabase_try_def js_not_iff)

lemma checkSupabase_never_throws: "fst (checkSupabase e ping) \<noteq> Throws x"
  by (auto simp: checkSupabase_def split: prod.splits completion.splits)

lemma checkSupabase_not_configured:
  "e ''SUPABASE_URL'' = None \<or> e ''SUPABASE_URL'' = Some [] \<or>
   e ''SUPABASE_SERVICE_ROLE_KEY'' = None \<or> e ''SUPABASE_SERVICE_ROLE_KEY'' = Some [] \<Longrightarrow>
   checkSupabase e ping = (Returns not_configured, [])"
  by (simp add: checkSupabase_def checkSupabase_try_unset)

lemma checkSupabase_failure:
  assumes "e ''SUPABASE_URL'' = Some url" "url \<noteq> []"
    and "e ''SUPABASE_SERVICE_ROLE_KEY'' = Some key" "key \<noteq> []"
    and "ping url key = Throws err \<or> (ping url key = Returns err \<and> truthy err)"
  shows "checkSupabase e ping =
     (Returns \<lparr>name = ''supabase'', status = DEGRADED,
        error = Some (if opt_message err = JUndefined \<or> opt_message err = JNull
                      then JStr ''Supabase unreachable'' else opt_message err)\<rparr>, [(url, key)])"
  using assms by (auto simp: checkSupabase_def checkSupabase_try_set nullish_or_if)

lemma checkSupabase_success:
  assumes "e ''SUPABASE_URL'' = Some url" "url \<noteq> []"
    and "e ''SUPABASE_SERVICE_ROLE_KEY'' = Some key" "key \<noteq> []"
    and "ping url key = Returns err" "\<not> truthy err"
  shows "checkSupabase e ping = (Returns \<lparr>name = ''supabase'', status = OK, error = None\<rparr>, [(url, key)])"
  using assms by (simp add: checkSupabase_def checkSupabase_try_set)

lemma checkSupabase_string:
  assumes "\<And>url key err. ping url key = Throws err \<or> ping url key = Returns err \<Longrightarrow> plain_message err"
    and "fst (checkSupabase e ping) = Returns r"
  shows "string_or_absent (error r)"
proof (cases "e ''SUPABASE_URL'' = None \<or> e ''SUPABASE_URL'' = Some [] \<or>
   e ''SUPABASE_SERVICE_ROLE_KEY'' = None \<or> e ''SUPABASE_SERVICE_ROLE_KEY'' = Some []")
  case True
  from checkSupabase_not_configured [OF this, of ping] assms(2) show ?thesis
    by (auto simp: not_configured_def string_or_absent_def is_string_def)
next
  case False
  then obtain url key where uk: "e ''SUPABASE_URL'' = Some url" "url \<noteq> []"
    "e ''SUPABASE_SERVICE_ROLE_KEY'' = Some key" "key \<noteq> []" by auto
  show ?thesis
  proof (cases "ping url key")
    case (Returns err)
    show ?thesis
    proof (cases "truthy err")
      case True
      have "plain_message err" using assms(1) Returns by blast
      from plain_message_string [OF this, of "''Supabase unreachable''"]
        checkSupabase_failure [of e url key ping err] uk Returns True assms(2)
      show ?thesis by (auto simp: string_or_absent_def)
    next
      case False
      from checkSupabase_success [of e url key ping err] uk Returns False assms(2) show ?thesis
        by (auto simp: string_or_absent_def)
    qed
  next
    case (Throws err)
    have "plain_message err" using assms(1) Throws by blast
    from plain_message_string [OF this, of "''Supabase unreachable''"]
      checkSupabase_failure [of e url key ping err] uk Throws assms(2)
    show ?thesis by (auto simp: string_or_absent_def)
  next
    case Hangs
    then have "fst (checkSupabase e ping) = Hangs"
      using uk by (simp add: checkSupabase_def checkSupabase_try_set)
    with assms(2) show ?thesis by simp
  qed
qed

subsection \<open>Wrappers and the event loop\<close>

lemma those_eq_Some: "those xs = Some ys \<Longrightarrow> xs = map Some ys"
  by (induction xs arbitrary: ys) (auto split: option.splits)

lemma those_all_Some: "\<forall>x \<in> set xs. x \<noteq> None \<Longrightarrow> \<exists>ys. those xs = Some ys"
  by (induction xs) auto

lemma length_dispatch: "length (dispatch ev ws) = length ws"
  by (simp add: dispatch_def)

lemma length_fold_dispatch: "length (fold dispatch sched ws) = length ws"
  by (induction sched arbitrary: ws) (simp_all add: length_dispatch)

lemma nth_dispatch:
  "i < length ws \<Longrightarrow> dispatch ev ws ! i = (if slot ev = i then react ev (ws ! i) else ws ! i)"
  by (auto simp: dispatch_def)

lemma nth_fold_dispatch:
  "i < length ws \<Longrightarrow>
   fold dispatch sched ws ! i = fold react (filter (\<lambda>ev. slot ev = i) sched) (ws ! i)"
proof (induction sched arbitrary: ws)
  case Nil
  then show ?case by simp
next
  case (Cons ev sched)
  have "i < length (dispatch ev ws)" using Cons.prems by (simp add: length_dispatch)
  from Cons.IH [OF this] show ?case using Cons.prems by (simp add: nth_dispatch)
qed

text \<open>
  A settled wrapper stays as it is: \<open>resolve\<close> and \<open>reject\<close> come too late.
\<close>

lemma outer_react_settled: "outer w = Some s \<Longrightarrow> outer (react ev w) = Some s"
  by (cases ev)
    (auto simp: on_timer_def on_inner_def settle_def clearTimeout_def
      split: option.splits completion.splits)

lemma outer_fold_react_settled: "outer w = Some s \<Longrightarrow> outer (fold react evs w) = Some s"
  by (induction evs arbitrary: w) (simp_all add: outer_react_settled)

lemma race_timer_first: "race p ms (TimerFires i # evs) = Some (Rejected (new_Error ''timeout''))"
  unfolding race_def
  by (simp add: outer_fold_react_settled withTimeout_def on_timer_def settle_def)

lemma race_throws_first: "race (Throws r) ms (InnerSettles i # evs) = Some (Rejected r)"
  unfolding race_def
  by (simp add: outer_fold_react_settled withTimeout_def on_inner_def settle_def clearTimeout_def)

lemma race_returns_first: "race (Returns v) ms (InnerSettles i # evs) = Some (Fulfilled v)"
  unfolding race_def
  by (simp add: outer_fold_react_settled withTimeout_def on_inner_def settle_def clearTimeout_def)

text \<open>
  A wrapper is settled by its timer or by its own promise, by nothing else.
\<close>

lemma react_settled_by:
  "(\<forall>s. outer w = Some s \<longrightarrow> settled_by (inner w) s) \<Longrightarrow>
   (\<forall>s. outer (react ev w) = Some s \<longrightarrow> settled_by (inner w) s) \<and> inner (react ev w) = inner w"
  by (cases ev)
    (auto simp: on_timer_def on_inner_def settle_def clearTimeout_def settled_by_def
      split: option.splits completion.splits if_splits)

lemma fold_react_settled_by:
  "(\<forall>s. outer w = Some s \<longrightarrow> settled_by (inner w) s) \<Longrightarrow>
   (\<forall>s. outer (fold react evs w) = Some s \<longrightarrow> settled_by (inner w) s)"
proof (induction evs arbitrary: w)
  case Nil
  then show ?case by simp
next
  case (Cons ev evs)
  from react_settled_by [OF Cons.prems, of ev]
  have a: "\<forall>s. outer (react ev w) = Some s \<longrightarrow> settled_by (inner (react ev w)) s"
    and b: "inner (react ev w) = inner w" by simp_all
  from Cons.IH [OF a] show ?case by (simp add: b)
qed

lemma race_settled_by: "race p ms evs = Some s \<Longrightarrow> settled_by p s"
  using fold_react_settled_by [of "withTimeout p ms" evs]
  by (simp add: race_def withTimeout_def)

text \<open>
  A timer that has not been cleared settles the wrapper when it fires, so a wrapper whose
  timer event occurs is settled in the end.
\<close>

lemma react_armed:
  "(timer w = None \<longrightarrow> outer w \<noteq> None) \<Longrightarrow> timer (react ev w) = None \<longrightarrow> outer (react ev w) \<noteq> None"
  by (cases ev)
    (auto simp: on_timer_def on_inner_def settle_def clearTimeout_def
      split: option.splits completion.splits if_splits)

lemma timer_settles:
  "(timer w = None \<longrightarrow> outer w \<noteq> None) \<Longrightarrow> outer (react (TimerFires i) w) \<noteq> None"
  by (auto simp: on_timer_def settle_def split: option.splits)

lemma fold_react_timer:
  "(timer w = None \<longrightarrow> outer w \<noteq> None) \<Longrightarrow> TimerFires i \<in> set evs \<Longrightarrow>
   outer (fold react evs w) \<noteq> None"
proof (induction evs arbitrary: w)
  case Nil
  then show ?case by simp
next
  case (Cons ev evs)
  show ?case
  proof (cases "ev = TimerFires i")
    case True
    from timer_settles [OF Cons.prems(1), of i]
    obtain s where "outer (react ev w) = Some s" using True by auto
    then show ?thesis by (simp add: outer_fold_react_settled)
  next
    case False
    with Cons.prems(2) have "TimerFires i \<in> set evs" by simp
    from Cons.IH [OF react_armed [OF Cons.prems(1)] this] show ?thesis by simp
  qed
qed

lemma race_timer: "TimerFires i \<in> set evs \<Longrightarrow> race p ms evs \<noteq> None"
  unfolding race_def by (rule fold_react_timer) (simp_all add: withTimeout_def)

subsection \<open>The runner, slot by slot\<close>

lemma mapResult_timeout: "mapResult (Rejected (new_Error ''timeout'')) = timed_out"
  by (simp add: mapResult_def new_Error_def timed_out_def)

lemma mapResult_Fulfilled: "mapResult (Fulfilled v) = v"
  by (simp add: mapResult_def)

lemma mapResult_string: "plain_message reason \<Longrightarrow> string_or_absent (error (mapResult (Rejected reason)))"
  using plain_message_string [of reason "''failed''"]
  by (simp add: mapResult_def string_or_absent_def nullish_or_if)

lemma checks_report: "checks (report rs) = rs"
  by (simp add: report_def)

lemma runChecks_slots:
  assumes "runChecks ps ms sched = Some rs"
  shows "length rs = length ps"
    and "i < length ps \<Longrightarrow>
         map_option mapResult (race (ps ! i) ms (filter (\<lambda>ev. slot ev = i) sched)) = Some (rs ! i)"
proof -
  let ?ws = "fold dispatch sched (map (\<lambda>p. withTimeout p ms) ps)"
  from assms obtain ss where ss: "allSettled ?ws = Some ss" and rs: "rs = map mapResult ss"
    by (auto simp: runChecks_def)
  from ss have eq: "map outer ?ws = map Some ss"
    by (simp add: allSettled_def those_eq_Some)
  from eq have len: "length ss = length ps"
    using length_fold_dispatch [of sched "map (\<lambda>p. withTimeout p ms) ps"]
    by (metis length_map)
  show "length rs = length ps" by (simp add: rs len)
  assume i: "i < length ps"
  have "outer (?ws ! i) = Some (ss ! i)"
    using eq i len by (metis length_map nth_map)
  moreover have "?ws ! i = fold react (filter (\<lambda>ev. slot ev = i) sched) (withTimeout (ps ! i) ms)"
    using i by (simp add: nth_fold_dispatch)
  ultimately have "race (ps ! i) ms (filter (\<lambda>ev. slot ev = i) sched) = Some (ss ! i)"
    by (simp add: race_def)
  then show "map_option mapResult (race (ps ! i) ms (filter (\<lambda>ev. slot ev = i) sched)) = Some (rs ! i)"
    using i len by (simp add: rs)
qed

lemma runChecks_returns:
  assumes "\<forall>i < length ps. TimerFires i \<in> set sched"
  shows "\<exists>rs. runChecks ps ms sched = Some rs"
proof -
  let ?ws = "fold dispatch sched (map (\<lambda>p. withTimeout p ms) ps)"
  have "\<forall>x \<in> set (map outer ?ws). x \<noteq> None"
  proof
    fix x assume "x \<in> set (map outer ?ws)"
    then obtain i where i: "i < length ?ws" and x: "x = outer (?ws ! i)"
      by (auto simp: in_set_conv_nth)
    from i have i': "i < length ps" by (simp add: length_fold_dispatch)
    then have "?ws ! i = fold react (filter (\<lambda>ev. slot ev = i) sched) (withTimeout (ps ! i) ms)"
      by (simp add: nth_fold_dispatch)
    then have "x = race (ps ! i) ms (filter (\<lambda>ev. slot ev = i) sched)"
      by (simp add: x race_def)
    moreover have "TimerFires i \<in> set (filter (\<lambda>ev. slot ev = i) sched)"
      using assms i' by simp
    ultimately show "x \<noteq> None" by (simp add: race_timer)
  qed
  from those_all_Some [OF this] show ?thesis
    by (auto simp: runChecks_def allSettled_def)
qed


lemma filter_first:
  "\<forall>e \<in> set pre. slot e \<noteq> i \<Longrightarrow> slot ev = i \<Longrightarrow>
   filter (\<lambda>e. slot e = i) (pre @ ev # post) = ev # filter (\<lambda>e. slot e = i) post"
  by (simp add: filter_empty_conv[THEN iffD2])

lemma readiness_Returns:
  "readiness e ping sched = Returns rep \<longleftrightarrow>
   (\<exists>rs. runChecks [checkEnv e, fst (checkSupabase e ping)] TIMEOUT_MS sched = Some rs \<and> rep = report rs)"
  by (auto simp: readiness_def split: option.splits)

lemma slot_result:
  assumes "map_option mapResult (race p ms evs) = Some c" and "\<And>x. p \<noteq> Throws x"
  shows "c = timed_out \<or> p = Returns c"
proof -
  from assms(1) obtain s where s: "race p ms evs = Some s" and c: "c = mapResult s" by auto
  from race_settled_by [OF s] assms(2) show ?thesis
    by (auto simp: settled_by_def c mapResult_timeout mapResult_Fulfilled split: completion.splits)
qed

lemma readiness_slots:
  assumes "readiness e ping sched = Returns rep"
  shows "length (checks rep) = 2"
    and "map_option mapResult (race (checkEnv e) TIMEOUT_MS (filter (\<lambda>ev. slot ev = 0) sched))
           = Some (checks rep ! 0)"
    and "map_option mapResult (race (fst (checkSupabase e ping)) TIMEOUT_MS (filter (\<lambda>ev. slot ev = 1) sched))
           = Some (checks rep ! 1)"
    and "checks rep ! 0 = timed_out \<or> checkEnv e = Returns (checks rep ! 0)"
    and "checks rep ! 1 = timed_out \<or> fst (checkSupabase e ping) = Returns (checks rep ! 1)"
proof -
  from assms obtain rs
    where rs: "runChecks [checkEnv e, fst (checkSupabase e ping)] TIMEOUT_MS sched = Some rs"
      and rep: "rep = report rs"
    by (auto simp: readiness_Returns)
  show "length (checks rep) = 2"
    using runChecks_slots(1) [OF rs] by (simp add: rep checks_report)
  show a: "map_option mapResult (race (checkEnv e) TIMEOUT_MS (filter (\<lambda>ev. slot ev = 0) sched))
           = Some (checks rep ! 0)"
    using runChecks_slots(2) [OF rs, of 0] by (simp add: rep checks_report)
  show b: "map_option mapResult (race (fst (checkSupabase e ping)) TIMEOUT_MS (filter (\<lambda>ev. slot ev = 1) sched))
           = Some (checks rep ! 1)"
    using runChecks_slots(2) [OF rs, of 1] by (simp add: rep checks_report)
  have "checkEnv e \<noteq> Throws x" for x
    using checkEnv_try_Returns [of e] by (auto simp: checkEnv_eq_try)
  from slot_result [OF a this] show "checks rep ! 0 = timed_out \<or> checkEnv e = Returns (checks rep ! 0)" .
  from slot_result [OF b checkSupabase_never_throws]
  show "checks rep ! 1 = timed_out \<or> fst (checkSupabase e ping) = Returns (checks rep ! 1)" .
qed


section \<open>The readiness verdict\<close>

text \<open>
  C1. For every list of check results the report copies the list and its \<open>ready\<close> field
  is the conjunction of \<open>status = OK\<close> over the entries; for the empty list it is true.
  The same holds of every report that \<open>readiness\<close> returns.
\<close>

theorem report_ready:
  "(ready (report rs) \<longleftrightarrow> (\<forall>c \<in> set rs. status c = OK)) \<and>
   checks (report rs) = rs \<and>
   ready (report []) \<and>
   (readiness e ping sched = Returns rep \<longrightarrow>
      (ready rep \<longleftrightarrow> (\<forall>c \<in> set (checks rep). status c = OK)))"
  by (auto simp: report_def readiness_def list_all_iff split: option.splits)

text \<open>
  Both checks pass and the verdict is true; one degraded entry makes it false.
\<close>

theorem report_ready_witness:
  "readiness env_full ping_ok [InnerSettles 1, InnerSettles 0] =
     Returns \<lparr>ready = True,
       checks = [\<lparr>name = ''env'', status = OK, error = None\<rparr>,
                 \<lparr>name = ''supabase'', status = OK, error = None\<rparr>]\<rparr> \<and>
   ready (report [\<lparr>name = ''env'', status = OK, error = None\<rparr>]) \<and>
   \<not> ready (report [\<lparr>name = ''env'', status = OK, error = None\<rparr>,
                     \<lparr>name = ''unknown'', status = DEGRADED, error = Some (JStr ''timeout'')\<rparr>])"
proof -
  have run: "readiness env_full ping_ok [InnerSettles 1, InnerSettles 0] =
     Returns \<lparr>ready = True,
       checks = [\<lparr>name = ''env'', status = OK, error = None\<rparr>,
                 \<lparr>name = ''supabase'', status = OK, error = None\<rparr>]\<rparr>"
    by code_simp
  show ?thesis
    using run
      report_ready [of "[\<lparr>name = ''env'', status = OK, error = None\<rparr>]" env_full ping_ok
        "[InnerSettles 1, InnerSettles 0]"
        "\<lparr>ready = True,
           checks = [\<lparr>name = ''env'', status = OK, error = None\<rparr>,
                     \<lparr>name = ''supabase'', status = OK, error = None\<rparr>]\<rparr>"]
      report_ready [of "[\<lparr>name = ''env'', status = OK, error = None\<rparr>,
                     \<lparr>name = ''unknown'', status = DEGRADED, error = Some (JStr ''timeout'')\<rparr>]"]
    by simp
qed

section \<open>Timeouts and failures\<close>

text \<open>
  C2. When the first event of a slot is its timer firing, the result of that slot is
  \<open>{ name: "unknown", status: degraded, error: "timeout" }\<close>: for the runner over any
  list of checks, and so for both slots of the report of \<open>readiness\<close>.
\<close>

theorem timer_first_gives_timeout:
  assumes "sched = pre @ TimerFires i # post" and "\<forall>ev \<in> set pre. slot ev \<noteq> i"
  shows "(i < length ps \<and> runChecks ps ms sched = Some rs \<longrightarrow>
            rs ! i = \<lparr>name = ''unknown'', status = DEGRADED, error = Some (JStr ''timeout'')\<rparr>) \<and>
         (i < 2 \<and> readiness e ping sched = Returns rep \<longrightarrow>
            checks rep ! i = \<lparr>name = ''unknown'', status = DEGRADED, error = Some (JStr ''timeout'')\<rparr>)"
proof -
  have f: "filter (\<lambda>ev. slot ev = i) sched = TimerFires i # filter (\<lambda>ev. slot ev = i) post"
    using assms by (simp add: filter_first)
  have g: "rs' ! i = timed_out" if "i < length ps'" and "runChecks ps' ms' sched = Some rs'"
    for ps' ms' rs'
    using runChecks_slots(2) [OF that(2) that(1)]
    by (simp add: f race_timer_first mapResult_timeout)
  show ?thesis
    using g [of ps ms rs] g [of "[checkEnv e, fst (checkSupabase e ping)]" TIMEOUT_MS]
    by (auto simp: readiness_Returns checks_report timed_out_def)
qed

text \<open>
  The database never answers and the timer of its slot fires; and a runner whose first
  check hangs while the second settles.
\<close>

theorem timer_first_gives_timeout_witness:
  "readiness env_full ping_hangs [InnerSettles 0, TimerFires 1] =
     Returns \<lparr>ready = False,
       checks = [\<lparr>name = ''env'', status = OK, error = None\<rparr>,
                 \<lparr>name = ''unknown'', status = DEGRADED, error = Some (JStr ''timeout'')\<rparr>]\<rparr> \<and>
   runChecks [Hangs, Returns \<lparr>name = ''env'', status = OK, error = None\<rparr>] 1500
       [TimerFires 0, InnerSettles 1, InnerSettles 0] =
     Some [\<lparr>name = ''unknown'', status = DEGRADED, error = Some (JStr ''timeout'')\<rparr>,
           \<lparr>name = ''env'', status = OK, error = None\<rparr>]"
proof -
  let ?rep = "\<lparr>ready = False,
       checks = [\<lparr>name = ''env'', status = OK, error = None\<rparr>,
                 \<lparr>name = ''unknown'', status = DEGRADED, error = Some (JStr ''timeout'')\<rparr>]\<rparr>"
  let ?rs = "[\<lparr>name = ''unknown'', status = DEGRADED, error = Some (JStr ''timeout'')\<rparr>,
           \<lparr>name = ''env'', status = OK, error = None\<rparr>]"
  have r1: "readiness env_full ping_hangs [InnerSettles 0, TimerFires 1] = Returns ?rep"
    by code_simp
  have r2: "runChecks [Hangs, Returns \<lparr>name = ''env'', status = OK, error = None\<rparr>] 1500
       [TimerFires 0, InnerSettles 1, InnerSettles 0] = Some ?rs"
    by code_simp
  have s1: "[InnerSettles 0, TimerFires 1] = [InnerSettles 0] @ TimerFires 1 # []" by simp
  have p1: "\<forall>ev \<in> set [InnerSettles 0]. slot ev \<noteq> 1" by simp
  have s2: "[TimerFires 0, InnerSettles 1, InnerSettles 0] = [] @ TimerFires 0 # [InnerSettles 1, InnerSettles 0]"
    by simp
  have p2: "\<forall>ev \<in> set []. slot ev \<noteq> 0" by simp
  from timer_first_gives_timeout [OF s1 p1, of "[]" 0 "[]" env_full ping_hangs ?rep]
    timer_first_gives_timeout [OF s2 p2,
      of "[Hangs, Returns \<lparr>name = ''env'', status = OK, error = None\<rparr>]" 1500 ?rs env_full ping_ok ?rep]
    r1 r2
  show ?thesis by simp
qed

text \<open>
  C3. When the first event of a slot is its check being rejected with \<open>reason\<close>, the
  result of that slot is \<open>{ name: "unknown", status: degraded, error: e }\<close>, where
  \<open>e\<close> is \<open>reason.message\<close>, or \<open>"failed"\<close> when \<open>reason\<close> is \<open>null\<close> or
  \<open>undefined\<close> or has no such property or has it \<open>null\<close> or \<open>undefined\<close>. Whatever
  the checks do, the runner returns its list once the schedule has reached the timer of
  every slot (a timer that was cleared does nothing), and \<open>readiness\<close> never throws and
  then returns a report.
\<close>

theorem failure_is_captured:
  "(i < length ps \<and> ps ! i = Throws reason \<and>
    sched = pre @ InnerSettles i # post \<and> (\<forall>ev \<in> set pre. slot ev \<noteq> i) \<and>
    runChecks ps ms sched = Some rs \<longrightarrow>
      rs ! i = \<lparr>name = ''unknown'', status = DEGRADED,
                 error = Some (if opt_message reason = JUndefined \<or> opt_message reason = JNull
                               then JStr ''failed'' else opt_message reason)\<rparr>) \<and>
   ((\<forall>j < length ps. TimerFires j \<in> set sched) \<longrightarrow> (\<exists>rs. runChecks ps ms sched = Some rs)) \<and>
   readiness e ping sched \<noteq> Throws x \<and>
   (TimerFires 0 \<in> set sched \<and> TimerFires 1 \<in> set sched \<longrightarrow>
      (\<exists>rep. readiness e ping sched = Returns rep))"
proof -
  have nullish: "nullish_or a b = (if a = JUndefined \<or> a = JNull then b else a)" for a b
    by (cases a) simp_all
  have a: "rs ! i = \<lparr>name = ''unknown'', status = DEGRADED,
                 error = Some (if opt_message reason = JUndefined \<or> opt_message reason = JNull
                               then JStr ''failed'' else opt_message reason)\<rparr>"
    if i: "i < length ps" and p: "ps ! i = Throws reason"
      and s: "sched = pre @ InnerSettles i # post" "\<forall>ev \<in> set pre. slot ev \<noteq> i"
      and r: "runChecks ps ms sched = Some rs"
  proof -
    have f: "filter (\<lambda>ev. slot ev = i) sched = InnerSettles i # filter (\<lambda>ev. slot ev = i) post"
      using s by (simp add: filter_first)
    from runChecks_slots(2) [OF r i] show ?thesis
      by (simp add: f p race_throws_first mapResult_def nullish)
  qed
  have b: "(\<forall>j < length ps. TimerFires j \<in> set sched) \<longrightarrow> (\<exists>rs. runChecks ps ms sched = Some rs)"
    using runChecks_returns by blast
  have c: "readiness e ping sched \<noteq> Throws x"
    by (simp add: readiness_def split: option.splits)
  have d: "\<exists>rep. readiness e ping sched = Returns rep"
    if "TimerFires 0 \<in> set sched" "TimerFires 1 \<in> set sched"
  proof -
    have "\<forall>j < length [checkEnv e, fst (checkSupabase e ping)]. TimerFires j \<in> set sched"
      using that by (simp add: less_Suc_eq)
    from runChecks_returns [OF this, of TIMEOUT_MS] show ?thesis
      by (auto simp: readiness_def)
  qed
  from a b c d show ?thesis by blast
qed

text \<open>
  One check rejected with an \<open>Error\<close>, one with \<open>null\<close>; and \<open>readiness\<close> with a
  database that never answers.
\<close>

theorem failure_is_captured_witness:
  "runChecks [Throws (new_Error ''boom''), Throws JNull] 1500
       [InnerSettles 1, InnerSettles 0, TimerFires 1, TimerFires 0] =
     Some [\<lparr>name = ''unknown'', status = DEGRADED, error = Some (JStr ''boom'')\<rparr>,
           \<lparr>name = ''unknown'', status = DEGRADED, error = Some (JStr ''failed'')\<rparr>] \<and>
   readiness env_full ping_hangs [InnerSettles 1, InnerSettles 0, TimerFires 1, TimerFires 0] =
     Returns \<lparr>ready = False,
       checks = [\<lparr>name = ''env'', status = OK, error = None\<rparr>,
                 \<lparr>name = ''unknown'', status = DEGRADED, error = Some (JStr ''timeout'')\<rparr>]\<rparr>"
proof -
  let ?ps = "[Throws (new_Error ''boom''), Throws JNull]"
  let ?sched = "[InnerSettles 1, InnerSettles 0, TimerFires 1, TimerFires 0]"
  let ?rs = "[\<lparr>name = ''unknown'', status = DEGRADED, error = Some (JStr ''boom'')\<rparr>,
           \<lparr>name = ''unknown'', status = DEGRADED, error = Some (JStr ''failed'')\<rparr>]"
  have r1: "runChecks ?ps 1500 ?sched = Some ?rs"
    by code_simp
  have r2: "readiness env_full ping_hangs ?sched =
     Returns \<lparr>ready = False,
       checks = [\<lparr>name = ''env'', status = OK, error = None\<rparr>,
                 \<lparr>name = ''unknown'', status = DEGRADED, error = Some (JStr ''timeout'')\<rparr>]\<rparr>"
    by code_simp
  from failure_is_captured [of 0 ?ps "new_Error ''boom''" ?sched "[InnerSettles 1]"
      "[TimerFires 1, TimerFires 0]" 1500 ?rs env_full ping_hangs JNull]
    failure_is_captured [of 1 ?ps JNull ?sched "[]"
      "[InnerSettles 0, TimerFires 1, TimerFires 0]" 1500 ?rs env_full ping_hangs JNull]
    r1 r2
  show ?thesis by simp
qed

section \<open>Order of the results\<close>



section \<open>The environment check\<close>

text \<open>
  C5. \<open>checkEnv\<close> returns a result named \<open>"env"\<close>. A key counts as missing exactly
  when it is not set or is the empty string. When some required key is missing the result is
  degraded with the error \<open>"Missing env vars: "\<close> followed by the missing names in the
  order of \<open>requiredVars\<close>, joined by \<open>", "\<close>; otherwise it is \<open>{ name: "env", status: ok }\<close>
  without an \<open>error\<close> field.
\<close>

theorem checkEnv_result:
  "(is_missing e k \<longleftrightarrow> e k = None \<or> e k = Some []) \<and>
   (\<exists>r. checkEnv e = Returns r \<and> name r = ''env'' \<and>
      (let missing = filter (\<lambda>k. e k = None \<or> e k = Some []) requiredVars in
         (missing \<noteq> [] \<longrightarrow>
            r = \<lparr>name = ''env'', status = DEGRADED,
                  error = Some (JStr (''Missing env vars: '' @ join_str '', '' missing))\<rparr>) \<and>
         (missing = [] \<longrightarrow> r = \<lparr>name = ''env'', status = OK, error = None\<rparr>)))"
proof -
  have m: "filter (is_missing e) requiredVars = filter (\<lambda>k. e k = None \<or> e k = Some []) requiredVars"
    by (rule filter_cong) (simp_all add: is_missing_iff)
  show ?thesis
    unfolding checkEnv_eq_try checkEnv_try_def m Let_def
    by (simp add: is_missing_iff)
qed

text \<open>
  Without the URL the check is degraded and names it; with both variables it is ok.
\<close>

theorem checkEnv_result_witness:
  "is_missing env_no_url ''SUPABASE_URL'' \<and>
   \<not> is_missing env_no_url ''SUPABASE_SERVICE_ROLE_KEY'' \<and>
   checkEnv env_no_url =
     Returns \<lparr>name = ''env'', status = DEGRADED, error = Some (JStr ''Missing env vars: SUPABASE_URL'')\<rparr> \<and>
   checkEnv env_full = Returns \<lparr>name = ''env'', status = OK, error = None\<rparr>"
  using checkEnv_result [of env_no_url "''SUPABASE_URL''"]
    checkEnv_result [of env_no_url "''SUPABASE_SERVICE_ROLE_KEY''"]
    checkEnv_result [of env_full "''SUPABASE_URL''"]
  by (auto simp: env_no_url_def env_full_def requiredVars_def)

text \<open>
  C9. The required keys are \<open>SUPABASE_URL\<close> and \<open>SUPABASE_SERVICE_ROLE_KEY\<close>:
  \<open>checkEnv\<close> returns ok exactly when both are set and not empty, and when both are missing
  the error lists them in this order.
\<close>

theorem checkEnv_required_keys:
  "set requiredVars = {''SUPABASE_URL'', ''SUPABASE_SERVICE_ROLE_KEY''} \<and>
   (\<exists>r. checkEnv e = Returns r \<and>
      (status r = OK \<longleftrightarrow>
         (\<exists>u k. e ''SUPABASE_URL'' = Some u \<and> u \<noteq> [] \<and>
                e ''SUPABASE_SERVICE_ROLE_KEY'' = Some k \<and> k \<noteq> []))) \<and>
   ((e ''SUPABASE_URL'' = None \<or> e ''SUPABASE_URL'' = Some []) \<and>
    (e ''SUPABASE_SERVICE_ROLE_KEY'' = None \<or> e ''SUPABASE_SERVICE_ROLE_KEY'' = Some []) \<longrightarrow>
      checkEnv e = Returns \<lparr>name = ''env'', status = DEGRADED,
        error = Some (JStr ''Missing env vars: SUPABASE_URL, SUPABASE_SERVICE_ROLE_KEY'')\<rparr>)"
  unfolding checkEnv_eq_try checkEnv_try_def Let_def requiredVars_def
  by (auto simp: is_missing_iff)

text \<open>
  The empty environment, and one with both variables.
\<close>

theorem checkEnv_required_keys_witness:
  "checkEnv Map.empty =
     Returns \<lparr>name = ''env'', status = DEGRADED,
       error = Some (JStr ''Missing env vars: SUPABASE_URL, SUPABASE_SERVICE_ROLE_KEY'')\<rparr> \<and>
   checkEnv env_full = Returns \<lparr>name = ''env'', status = OK, error = None\<rparr>"
proof -
  have "checkEnv env_full = Returns \<lparr>name = ''env'', status = OK, error = None\<rparr>"
    by code_simp
  with checkEnv_required_keys [of Map.empty] checkEnv_required_keys [of env_full]
  show ?thesis by simp
qed

section \<open>The database check\<close>

text \<open>
  C6, as amended. When the URL or the key is not set or empty, \<open>checkSupabase\<close> returns
  \<open>{ name: "supabase", status: degraded, error: "Supabase env not configured" }\<close> and hands
  nothing to the client. It never throws. When the client throws, or answers with a truthy
  \<open>error\<close>, the result is degraded and its \<open>error\<close> is the \<open>message\<close> of that value, or
  \<open>"Supabase unreachable"\<close> when it has none; this is the value as it is, so it is a string
  when that \<open>message\<close> is a string.
\<close>

theorem checkSupabase_fails_safely:
  "(e ''SUPABASE_URL'' = None \<or> e ''SUPABASE_URL'' = Some [] \<or>
    e ''SUPABASE_SERVICE_ROLE_KEY'' = None \<or> e ''SUPABASE_SERVICE_ROLE_KEY'' = Some [] \<longrightarrow>
      checkSupabase e ping =
        (Returns \<lparr>name = ''supabase'', status = DEGRADED,
           error = Some (JStr ''Supabase env not configured'')\<rparr>, [])) \<and>
   fst (checkSupabase e ping) \<noteq> Throws x \<and>
   (e ''SUPABASE_URL'' = Some url \<and> url \<noteq> [] \<and>
    e ''SUPABASE_SERVICE_ROLE_KEY'' = Some key \<and> key \<noteq> [] \<and>
    (ping url key = Throws err \<or> ping url key = Returns err \<and> truthy err) \<longrightarrow>
      checkSupabase e ping =
        (Returns \<lparr>name = ''supabase'', status = DEGRADED,
           error = Some (if opt_message err = JUndefined \<or> opt_message err = JNull
                         then JStr ''Supabase unreachable'' else opt_message err)\<rparr>, [(url, key)]) \<and>
      (plain_message err \<longrightarrow>
         is_string (if opt_message err = JUndefined \<or> opt_message err = JNull
                    then JStr ''Supabase unreachable'' else opt_message err)))"
  using checkSupabase_not_configured [of e ping] checkSupabase_never_throws [of e ping x]
    checkSupabase_failure [of e url key ping err] plain_message_string [of err "''Supabase unreachable''"]
  unfolding not_configured_def
  by blast

text \<open>
  No URL: nothing is sent. A refused connection: the result carries the message.
\<close>

theorem checkSupabase_fails_safely_witness:
  "checkSupabase env_no_url ping_ok =
     (Returns \<lparr>name = ''supabase'', status = DEGRADED,
        error = Some (JStr ''Supabase env not configured'')\<rparr>, []) \<and>
   checkSupabase env_full ping_refused =
     (Returns \<lparr>name = ''supabase'', status = DEGRADED, error = Some (JStr ''connection refused'')\<rparr>,
      [(''https://db.example'', ''secret'')]) \<and>
   is_string (JStr ''connection refused'')"
  using checkSupabase_fails_safely [of env_no_url ping_ok JNull "''''" "''''" JNull]
    checkSupabase_fails_safely [of env_full ping_refused JNull "''https://db.example''" "''secret''"
      "JObj [(''message'', JStr ''connection refused'')]"]
  by (simp add: env_no_url_def env_full_def ping_refused_def plain_message_def is_string_def)

text \<open>
  The error of a degraded result need not be a string: a client that throws an object
  whose \<open>message\<close> is the number 503 gives a result whose \<open>error\<close> is that number.
\<close>

theorem checkSupabase_message_counterexample:
  "checkSupabase env_full ping_numeric =
     (Returns \<lparr>name = ''supabase'', status = DEGRADED, error = Some (JNum 503)\<rparr>,
      [(''https://db.example'', ''secret'')]) \<and>
   \<not> is_string (JNum 503)"
  by (simp add: checkSupabase_def checkSupabase_try_def env_full_def ping_numeric_def js_not_def
      is_string_def)

text \<open>
  C10. Both checks test the same two variables in the same way. So when \<open>checkEnv\<close>
  returns a degraded result, \<open>checkSupabase\<close> returns
  \<open>{ name: "supabase", status: degraded, error: "Supabase env not configured" }\<close> without
  calling the client, and every report of \<open>readiness\<close> has both entries degraded and
  \<open>ready\<close> false. The same follows from the report alone, when its first entry is the
  degraded result of the environment check.
\<close>

theorem env_degraded_then_supabase_degraded:
  "((filter (is_missing e) requiredVars \<noteq> []) \<longleftrightarrow>
      (js_not (e ''SUPABASE_URL'') \<or> js_not (e ''SUPABASE_SERVICE_ROLE_KEY''))) \<and>
   (checkEnv e = Returns r \<and> status r = DEGRADED \<longrightarrow>
      checkSupabase e ping =
        (Returns \<lparr>name = ''supabase'', status = DEGRADED,
           error = Some (JStr ''Supabase env not configured'')\<rparr>, []) \<and>
      (readiness e ping sched = Returns rep \<longrightarrow>
         status (checks rep ! 0) = DEGRADED \<and> status (checks rep ! 1) = DEGRADED \<and> \<not> ready rep)) \<and>
   (readiness e ping sched = Returns rep \<and>
    name (checks rep ! 0) = ''env'' \<and> status (checks rep ! 0) = DEGRADED \<longrightarrow>
      status (checks rep ! 1) = DEGRADED \<and> \<not> ready rep)"
proof -
  have same: "(filter (is_missing e) requiredVars \<noteq> []) \<longleftrightarrow>
      (js_not (e ''SUPABASE_URL'') \<or> js_not (e ''SUPABASE_SERVICE_ROLE_KEY''))"
    by (auto simp: requiredVars_def is_missing_iff js_not_iff)
  have unset: "e ''SUPABASE_URL'' = None \<or> e ''SUPABASE_URL'' = Some [] \<or>
      e ''SUPABASE_SERVICE_ROLE_KEY'' = None \<or> e ''SUPABASE_SERVICE_ROLE_KEY'' = Some []"
    if "checkEnv e = Returns r'" "status r' = DEGRADED" for r'
    using that
    by (auto simp: checkEnv_eq_try checkEnv_try_def Let_def requiredVars_def is_missing_iff
        split: if_splits)
  have sup: "checkSupabase e ping = (Returns not_configured, [])"
    if "checkEnv e = Returns r'" "status r' = DEGRADED" for r'
    using checkSupabase_not_configured [OF unset [OF that]] .
  have td: "status timed_out = DEGRADED" "name timed_out = ''unknown''"
    by (simp_all add: timed_out_def)
  have nd: "status not_configured = DEGRADED" by (simp add: not_configured_def)
  have notready: "\<not> ready rep'" if r: "readiness e ping sched = Returns rep'"
    and d: "status (checks rep' ! i) = DEGRADED" and i: "i < 2" for rep' i
  proof -
    from readiness_slots(1) [OF r] i have "checks rep' ! i \<in> set (checks rep')" by simp
    with d have "\<not> (\<forall>c \<in> set (checks rep'). status c = OK)" by force
    moreover from r have "ready rep' \<longleftrightarrow> (\<forall>c \<in> set (checks rep'). status c = OK)"
      by (auto simp: readiness_Returns report_def list_all_iff)
    ultimately show ?thesis by simp
  qed
  have slots: "status (checks rep' ! 0) = DEGRADED \<and> status (checks rep' ! 1) = DEGRADED \<and> \<not> ready rep'"
    if c: "checkEnv e = Returns r'" "status r' = DEGRADED"
      and r: "readiness e ping sched = Returns rep'" for r' rep'
  proof -
    from readiness_slots(4) [OF r] c td have s0: "status (checks rep' ! 0) = DEGRADED" by auto
    from readiness_slots(5) [OF r] sup [OF c] td nd have s1: "status (checks rep' ! 1) = DEGRADED"
      by auto
    from s0 s1 notready [OF r s0] show ?thesis by simp
  qed
  have named: "status (checks rep ! 1) = DEGRADED \<and> \<not> ready rep"
    if r: "readiness e ping sched = Returns rep"
      and n: "name (checks rep ! 0) = ''env''" and d: "status (checks rep ! 0) = DEGRADED"
  proof -
    from readiness_slots(4) [OF r] n td have "checkEnv e = Returns (checks rep ! 0)" by auto
    from slots [OF this d r] show ?thesis by simp
  qed
  from same sup slots named show ?thesis
    unfolding not_configured_def by blast
qed

text \<open>
  The URL is missing: both entries are degraded.
\<close>

theorem env_degraded_then_supabase_degraded_witness:
  "checkEnv env_no_url =
     Returns \<lparr>name = ''env'', status = DEGRADED, error = Some (JStr ''Missing env vars: SUPABASE_URL'')\<rparr> \<and>
   checkSupabase env_no_url ping_ok =
     (Returns \<lparr>name = ''supabase'', status = DEGRADED,
        error = Some (JStr ''Supabase env not configured'')\<rparr>, []) \<and>
   readiness env_no_url ping_ok [InnerSettles 0, InnerSettles 1] =
     Returns \<lparr>ready = False,
       checks = [\<lparr>name = ''env'', status = DEGRADED,
                  error = Some (JStr ''Missing env vars: SUPABASE_URL'')\<rparr>,
                 \<lparr>name = ''supabase'', status = DEGRADED,
                  error = Some (JStr ''Supabase env not configured'')\<rparr>]\<rparr>"
proof -
  let ?r = "\<lparr>name = ''env'', status = DEGRADED, error = Some (JStr ''Missing env vars: SUPABASE_URL'')\<rparr>"
  let ?rep = "\<lparr>ready = False,
       checks = [?r, \<lparr>name = ''supabase'', status = DEGRADED,
                  error = Some (JStr ''Supabase env not configured'')\<rparr>]\<rparr>"
  have c: "checkEnv env_no_url = Returns ?r"
    by code_simp
  have r: "readiness env_no_url ping_ok [InnerSettles 0, InnerSettles 1] = Returns ?rep"
    by code_simp
  from env_degraded_then_supabase_degraded [of env_no_url ?r ping_ok
      "[InnerSettles 0, InnerSettles 1]" ?rep] c r
  show ?thesis by simp
qed

section \<open>Liveness\<close>

text \<open>
  C7, as amended. The status is ok and the uptime is the difference of the two clock
  readings divided by 1000 and rounded down. It is not negative when the clock reading of
  the call is not below that of the construction, and it does not decrease from one call to
  a later one when the clock does not.
\<close>

theorem liveness_uptime:
  "h_status (liveness startedAt now e) = OK \<and>
   uptime (liveness startedAt now e) = (now - startedAt) div 1000 \<and>
   1000 * uptime (liveness startedAt now e) \<le> now - startedAt \<and>
   now - startedAt < 1000 * uptime (liveness startedAt now e) + 1000 \<and>
   (startedAt \<le> now \<longrightarrow> 0 \<le> uptime (liveness startedAt now e)) \<and>
   (now \<le> now' \<longrightarrow> uptime (liveness startedAt now e) \<le> uptime (liveness startedAt now' e'))"
proof -
  define x where "x = now - startedAt"
  have up: "uptime (liveness startedAt now e) = x div 1000"
    by (simp add: liveness_def x_def)
  have st: "h_status (liveness startedAt now e) = OK"
    by (simp add: liveness_def)
  have lo: "1000 * (x div 1000) \<le> x" and hi: "x < 1000 * (x div 1000) + 1000"
    using mult_div_mod_eq [of 1000 x] pos_mod_sign [of 1000 x] pos_mod_bound [of 1000 x]
    by linarith+
  have nonneg: "0 \<le> x div 1000" if "startedAt \<le> now"
    using that by (simp add: pos_imp_zdiv_nonneg_iff x_def)
  have mono: "x div 1000 \<le> uptime (liveness startedAt now' e')" if "now \<le> now'"
    using that by (simp add: liveness_def x_def zdiv_mono1)
  from st lo hi nonneg mono show ?thesis
    unfolding up by (simp add: x_def)
qed

text \<open>
  Started at 1000, asked at 3500 and at 4200.
\<close>

theorem liveness_uptime_witness:
  "uptime (liveness 1000 3500 env_full) = 2 \<and>
   0 \<le> uptime (liveness 1000 3500 env_full) \<and>
   uptime (liveness 1000 3500 env_full) \<le> uptime (liveness 1000 4200 env_no_url)"
  using liveness_uptime [of 1000 3500 env_full 4200 env_no_url]
  by simp

text \<open>
  A clock set back between the construction and the call gives a negative uptime.
\<close>

theorem liveness_uptime_counterexample:
  "uptime (liveness 5000 1000 env_full) = - 4 \<and> \<not> 0 \<le> uptime (liveness 5000 1000 env_full)"
  by (simp add: liveness_def)

section \<open>The error field\<close>

text \<open>
  C8, as amended. The \<open>error\<close> of what \<open>checkEnv\<close> returns is a string or absent, and
  so is that of the result made for a timeout. The result made for a rejection, and what
  \<open>checkSupabase\<close> returns, take the \<open>message\<close> of the failure as it is: their \<open>error\<close>
  is a string or absent when that \<open>message\<close> is a string, \<open>null\<close> or \<open>undefined\<close>. For a
  client all of whose failures are of this kind, every entry of every report of
  \<open>readiness\<close> has an \<open>error\<close> that is a string or absent.
\<close>

theorem error_field_is_string:
  "(\<exists>r. checkEnv e = Returns r \<and> string_or_absent (error r)) \<and>
   string_or_absent (error (mapResult (Rejected (new_Error ''timeout'')))) \<and>
   (plain_message reason \<longrightarrow> string_or_absent (error (mapResult (Rejected reason)))) \<and>
   ((\<forall>url key err. ping url key = Throws err \<or> ping url key = Returns err \<longrightarrow> plain_message err) \<longrightarrow>
      (\<forall>r. fst (checkSupabase e ping) = Returns r \<longrightarrow> string_or_absent (error r)) \<and>
      (\<forall>rep. readiness e ping sched = Returns rep \<longrightarrow>
         (\<forall>c \<in> set (checks rep). string_or_absent (error c))))"
proof -
  have t: "string_or_absent (error timed_out)"
    by (simp add: timed_out_def string_or_absent_def is_string_def)
  have a: "\<exists>r. checkEnv e = Returns r \<and> string_or_absent (error r)"
    using checkEnv_string [of e] by blast
  have b: "string_or_absent (error (mapResult (Rejected (new_Error ''timeout''))))"
    by (simp add: mapResult_timeout t)
  have c: "plain_message reason \<longrightarrow> string_or_absent (error (mapResult (Rejected reason)))"
    by (simp add: mapResult_string)
  have d: "string_or_absent (error c)"
    if p: "\<forall>url key err. ping url key = Throws err \<or> ping url key = Returns err \<longrightarrow> plain_message err"
      and r: "readiness e ping sched = Returns rep" and c: "c \<in> set (checks rep)" for rep c
  proof -
    from readiness_slots(1) [OF r] c obtain i where i: "i < 2" and ci: "c = checks rep ! i"
      by (auto simp: in_set_conv_nth)
    from i have "i = 0 \<or> i = 1" by auto
    then show ?thesis
    proof
      assume "i = 0"
      with readiness_slots(4) [OF r] ci checkEnv_string [of e] t show ?thesis by auto
    next
      assume "i = 1"
      with readiness_slots(5) [OF r] ci t checkSupabase_string [of ping e c] p show ?thesis by auto
    qed
  qed
  have e: "string_or_absent (error r)"
    if "\<forall>url key err. ping url key = Throws err \<or> ping url key = Returns err \<longrightarrow> plain_message err"
      and "fst (checkSupabase e ping) = Returns r" for r
    using checkSupabase_string [of ping e r] that by blast
  from a b c d e show ?thesis by blast
qed

text \<open>
  A refused connection, and a rejection with an \<open>Error\<close>.
\<close>

theorem error_field_is_string_witness:
  "readiness env_full ping_refused [InnerSettles 0, InnerSettles 1] =
     Returns \<lparr>ready = False,
       checks = [\<lparr>name = ''env'', status = OK, error = None\<rparr>,
                 \<lparr>name = ''supabase'', status = DEGRADED,
                  error = Some (JStr ''connection refused'')\<rparr>]\<rparr> \<and>
   string_or_absent (Some (JStr ''connection refused'')) \<and>
   string_or_absent (error (mapResult (Rejected (new_Error ''boom''))))"
proof -
  let ?rep = "\<lparr>ready = False,
       checks = [\<lparr>name = ''env'', status = OK, error = None\<rparr>,
                 \<lparr>name = ''supabase'', status = DEGRADED,
                  error = Some (JStr ''connection refused'')\<rparr>]\<rparr>"
  have r: "readiness env_full ping_refused [InnerSettles 0, InnerSettles 1] = Returns ?rep"
    by code_simp
  have p: "\<forall>url key err. ping_refused url key = Throws err \<or> ping_refused url key = Returns err
      \<longrightarrow> plain_message err"
    by (simp add: ping_refused_def plain_message_def is_string_def)
  have m: "plain_message (new_Error ''boom'')"
    by (simp add: plain_message_def new_Error_def is_string_def)
  from error_field_is_string [of env_full "new_Error ''boom''" ping_refused
      "[InnerSettles 0, InnerSettles 1]"] r p m
  show ?thesis by simp
qed

text \<open>
  A client whose error has an object as its \<open>message\<close>: the \<open>error\<close> of the entry is
  that object.
\<close>

theorem error_field_counterexample:
  "readiness env_full ping_nested [InnerSettles 0, InnerSettles 1] =
     Returns \<lparr>ready = False,
       checks = [\<lparr>name = ''env'', status = OK, error = None\<rparr>,
                 \<lparr>name = ''supabase'', status = DEGRADED,
                  error = Some (JObj [(''message'', JStr ''upstream unavailable'')])\<rparr>]\<rparr> \<and>
   \<not> string_or_absent (Some (JObj [(''message'', JStr ''upstream unavailable'')]))"
  by code_simp

end
